theory Spec2Isabelle
  imports Complex_Main "HOL-Library.Word"
begin

section \<open>Errors\<close>

text \<open>
  The exceptions that can leave the three functions of \<^verbatim>\<open>core.py\<close>. None of them is
  raised by the module itself: each comes out of a library call (the Earth Engine client,
  rasterio, pathlib, PIL) and propagates, since the module has no \<^verbatim>\<open>try\<close>.
\<close>

datatype error =
    EEException
  | RasterioIOError
  | IndexError
  | FileExistsError
  | NotADirectoryError
  | FileNotFoundError
  | IsADirectoryError
  | ValueError

section \<open>The export: \<^verbatim>\<open>extract_geotiff_from_gee\<close>\<close>

text \<open>
  The image handed to the export is a lazy description built on the client:
  \<^verbatim>\<open>ee.ImageCollection(dataset_name).filter(ee.Filter.date(start_date, end_date))\<close>,
  then \<^verbatim>\<open>.select(bands).mean()\<close>.
\<close>

record ee_image =
  collection :: string
  date_filter :: "string \<times> string"
  selected :: "string list"

text \<open>The keyword arguments of \<^verbatim>\<open>ee.batch.Export.image.toDrive\<close>.\<close>

record export_task =
  image :: ee_image
  description :: string
  folder :: string
  scale :: int
  region :: "real list"

text \<open>
  The Earth Engine service is outside the repository, so it is a parameter: what
  \<^verbatim>\<open>ee.Initialize()\<close> answers, what \<^verbatim>\<open>task.start()\<close> answers for a task (the id
  the service gives it, or an exception) and what the \<open>k\<close>-th call of
  \<^verbatim>\<open>task.active()\<close> answers for a task id. The service sees the whole task, so its
  answers may depend on the region.
\<close>

record remote =
  Initialize :: "error + unit"
  start :: "export_task \<Rightarrow> error + string"
  active :: "string \<Rightarrow> nat \<Rightarrow> error + bool"

text \<open>What the function does to the outside, in order.\<close>

datatype event =
    EEInitialize
  | TaskStart export_task
  | TaskActive string
  | Sleep nat
  | Print string

text \<open>
  Lines 55 and 56, \<^verbatim>\<open>while task.active(): time.sleep(1)\<close>. The loop has no bound, so
  it is a partial function: \<open>None\<close> is the run that never leaves the loop. \<open>k\<close> counts
  the status queries made so far and \<open>tr\<close> is the trace so far; an exception of the
  status query ends the loop with that exception.
\<close>

partial_function (option) await_completion ::
  "(nat \<Rightarrow> error + bool) \<Rightarrow> string \<Rightarrow> nat \<Rightarrow> event list \<Rightarrow> ((error + unit) \<times> event list) option"
where
  "await_completion act tid k tr =
     (case act k of
        Inl e \<Rightarrow> Some (Inl e, tr @ [TaskActive tid])
      | Inr b \<Rightarrow>
          if b then await_completion act tid (Suc k) (tr @ [TaskActive tid, Sleep 1])
          else Some (Inr (), tr @ [TaskActive tid]))"

text \<open>
  The trace of a wait that made \<open>n\<close> queries answered "active", each followed by the
  sleep, and a last query.
\<close>

definition polling :: "string \<Rightarrow> nat \<Rightarrow> event list" where
  "polling tid n = concat (replicate n [TaskActive tid, Sleep 1]) @ [TaskActive tid]"

text \<open>
  What a result \<open>y\<close> of the wait started at query \<open>k\<close> with trace \<open>tr\<close> says about
  the answers of the service.
\<close>

definition polled ::
  "(nat \<Rightarrow> error + bool) \<Rightarrow> string \<Rightarrow> nat \<Rightarrow> event list \<Rightarrow> (error + unit) \<times> event list \<Rightarrow> bool"
where
  "polled act tid k tr y \<longleftrightarrow>
     (\<exists>n. (\<forall>j<n. act (k + j) = Inr True) \<and> snd y = tr @ polling tid n \<and>
       (case fst y of Inl e \<Rightarrow> act (k + n) = Inl e | Inr _ \<Rightarrow> act (k + n) = Inr False))"

text \<open>
  Lines 32 to 51: the rectangle, the filtered and reduced collection and the export task
  built from them. Nothing here looks at the order of the bounds.
\<close>

definition toDrive ::
  "string \<Rightarrow> string list \<Rightarrow> string \<Rightarrow> string \<Rightarrow> string \<Rightarrow> string \<Rightarrow> int \<Rightarrow>
   real \<Rightarrow> real \<Rightarrow> real \<Rightarrow> real \<Rightarrow> export_task"
where
  "toDrive dataset_name bands start_date end_date output_dir desc mpp xmin ymin xmax ymax =
     (let geometry = [xmin, ymin, xmax, ymax];
          img = \<lparr>collection = dataset_name, date_filter = (start_date, end_date),
                 selected = bands\<rparr>;
          fname_root = desc
      in \<lparr>image = img, description = fname_root, folder = output_dir,
          scale = mpp, region = geometry\<rparr>)"

definition working_notice :: "string \<Rightarrow> string" where
  "working_notice tid = ''Working on export task (id: '' @ tid @ '').''"

definition complete_notice :: "string \<Rightarrow> string \<Rightarrow> string" where
  "complete_notice output_dir fname_root =
     ''Export complete. File available in Drive at /'' @ output_dir @ ''/'' @ fname_root @ ''.tif''"

text \<open>
  The whole function. \<open>None\<close> is the call that never returns; otherwise the result is the
  exception that left the function or \<open>()\<close>, with the trace of what was done.
\<close>

definition extract_geotiff_from_gee ::
  "remote \<Rightarrow> string \<Rightarrow> string list \<Rightarrow> string \<Rightarrow> string \<Rightarrow> string \<Rightarrow> string \<Rightarrow> int \<Rightarrow>
   real \<Rightarrow> real \<Rightarrow> real \<Rightarrow> real \<Rightarrow> ((error + unit) \<times> event list) option"
where
  "extract_geotiff_from_gee rem dataset_name bands start_date end_date output_dir desc mpp
       xmin ymin xmax ymax =
     (case Initialize rem of
        Inl e \<Rightarrow> Some (Inl e, [EEInitialize])
      | Inr _ \<Rightarrow>
          let task = toDrive dataset_name bands start_date end_date output_dir desc mpp
                       xmin ymin xmax ymax
          in (case start rem task of
                Inl e \<Rightarrow> Some (Inl e, [EEInitialize, TaskStart task])
              | Inr tid \<Rightarrow>
                  (case await_completion (active rem tid) tid 0
                          [EEInitialize, TaskStart task, Print (working_notice tid)] of
                     None \<Rightarrow> None
                   | Some (Inl e, tr) \<Rightarrow> Some (Inl e, tr)
                   | Some (Inr _, tr) \<Rightarrow>
                       Some (Inr (), tr @ [Print (complete_notice output_dir desc)]))))"

text \<open>
  For the examples: a service that accepts everything, names the task \<^verbatim>\<open>T1\<close> and
  reports it active at the first status query only.
\<close>

definition accepting :: remote where
  "accepting = \<lparr>Initialize = Inr (), start = (\<lambda>_. Inr ''T1''),
                 active = (\<lambda>_ k. Inr (k < 1))\<rparr>"

section \<open>The conversion: \<^verbatim>\<open>arr_from_geotiff\<close>\<close>

type_synonym u8 = "8 word"

text \<open>
  A raster file as rasterio presents it: the number of bands, the height and width every
  band shares, and the sample of band \<open>b\<close> (counted from 0) at row \<open>y\<close> and column
  \<open>x\<close>. Samples are integers: the model covers the integer sample types.
\<close>

record dataset =
  count :: nat
  height :: nat
  width :: nat
  samples :: "nat \<Rightarrow> nat \<Rightarrow> nat \<Rightarrow> int"

text \<open>Two- and three-dimensional arrays, with their shape.\<close>

record band_array =
  shape2 :: "nat \<times> nat"
  data2 :: "int list list"

record rgb_array =
  shape3 :: "nat \<times> nat \<times> nat"
  data3 :: "u8 list list list"

text \<open>A PIL image in mode RGB: its size is (width, height).\<close>

record rgb_image =
  img_size :: "nat \<times> nat"
  pixels :: "u8 list list list"

text \<open>\<^verbatim>\<open>str.endswith\<close>.\<close>

definition endswith :: "string \<Rightarrow> string \<Rightarrow> bool" where
  "endswith s suffix \<longleftrightarrow> drop (length s - length suffix) s = suffix"

text \<open>Lines 78 and 79: the name handed to \<^verbatim>\<open>rasterio.open\<close>.\<close>

definition tif_name :: "string \<Rightarrow> string" where
  "tif_name fname = (if \<not> endswith fname ''.tif'' then fname @ ''.tif'' else fname)"

text \<open>
  \<^verbatim>\<open>src.read(i)\<close>: bands are numbered from 1, and an index outside \<open>1..count\<close>
  raises \<^verbatim>\<open>IndexError\<close>.
\<close>

definition read :: "dataset \<Rightarrow> int \<Rightarrow> error + band_array" where
  "read src i =
     (if 1 \<le> i \<and> i \<le> int (count src)
      then Inr \<lparr>shape2 = (height src, width src),
                data2 = map (\<lambda>y. map (\<lambda>x. samples src (nat (i - 1)) y x) [0..<width src])
                          [0..<height src]\<rparr>
      else Inl IndexError)"

text \<open>\<^verbatim>\<open>np.zeros((h, w, c), dtype=np.uint8)\<close>.\<close>

definition zeros :: "nat \<times> nat \<times> nat \<Rightarrow> rgb_array" where
  "zeros s = (case s of (h, w, c) \<Rightarrow>
     \<lparr>shape3 = (h, w, c), data3 = replicate h (replicate w (replicate c 0))\<rparr>)"

text \<open>
  The cast of an assignment into a \<^verbatim>\<open>uint8\<close> array: numpy converts an integer sample
  without a range check, keeping its low eight bits.
\<close>

definition astype_uint8 :: "int \<Rightarrow> u8" where
  "astype_uint8 v = word_of_int v"

text \<open>
  \<^verbatim>\<open>img_arr[:,:,c] = r\<close>, for \<open>r\<close> of the shape of the first two axes of
  \<open>img_arr\<close> (the three bands are read from one dataset, so they have one shape).
\<close>

definition assign_channel :: "nat \<Rightarrow> band_array \<Rightarrow> rgb_array \<Rightarrow> rgb_array" where
  "assign_channel c r img_arr =
     img_arr\<lparr>data3 := map2 (map2 (\<lambda>px v. px[c := astype_uint8 v])) (data3 img_arr) (data2 r)\<rparr>"

text \<open>\<^verbatim>\<open>Image.fromarray\<close> on a (height, width, 3) array of \<^verbatim>\<open>uint8\<close>.\<close>

definition fromarray :: "rgb_array \<Rightarrow> rgb_image" where
  "fromarray a = (case shape3 a of (h, w, _) \<Rightarrow> \<lparr>img_size = (w, h), pixels = data3 a\<rparr>)"

text \<open>
  The function: the local files are a map from names to datasets. The first component of
  the result is the name that was opened, the second the image or the exception.
\<close>

definition arr_from_geotiff ::
  "(string \<rightharpoonup> dataset) \<Rightarrow> string \<Rightarrow> int \<Rightarrow> int \<Rightarrow> int \<Rightarrow> string \<times> (error + rgb_image)"
where
  "arr_from_geotiff disk fname r_channel g_channel b_channel =
     (let fname = tif_name fname in
      (fname,
       case disk fname of
         None \<Rightarrow> Inl RasterioIOError
       | Some src \<Rightarrow>
           (case read src r_channel of
              Inl e \<Rightarrow> Inl e
            | Inr r \<Rightarrow>
                (case read src g_channel of
                   Inl e \<Rightarrow> Inl e
                 | Inr g \<Rightarrow>
                     (case read src b_channel of
                        Inl e \<Rightarrow> Inl e
                      | Inr b \<Rightarrow>
                          let img_arr = zeros (fst (shape2 r), snd (shape2 r), 3);
                              img_arr = assign_channel 0 r img_arr;
                              img_arr = assign_channel 1 g img_arr;
                              img_arr = assign_channel 2 b img_arr
                          in Inr (fromarray img_arr))))))"

text \<open>Channel \<open>c\<close> of an image, as a height by width grid.\<close>

definition channel :: "nat \<Rightarrow> rgb_image \<Rightarrow> u8 list list" where
  "channel c img = map (map (\<lambda>px. px ! c)) (pixels img)"

definition uniform :: "nat \<Rightarrow> nat \<Rightarrow> 'a \<Rightarrow> 'a list list" where
  "uniform h w v = replicate h (replicate w v)"

text \<open>
  Band \<open>i\<close> (counted from 1) is a band of the dataset and every sample of it is \<open>v\<close>.
\<close>

definition band_is_constant :: "dataset \<Rightarrow> int \<Rightarrow> int \<Rightarrow> bool" where
  "band_is_constant src i v \<longleftrightarrow>
     1 \<le> i \<and> i \<le> int (count src) \<and>
     list_all (\<lambda>y. list_all (\<lambda>x. samples src (nat (i - 1)) y x = v) [0..<width src])
       [0..<height src]"

text \<open>
  Two rasters for the examples: three bands holding 10, 20 and 30 everywhere, and a raster
  of one row whose samples lie outside 0..255.
\<close>

definition three_band :: "nat \<Rightarrow> nat \<Rightarrow> dataset" where
  "three_band h w = \<lparr>count = 3, height = h, width = w, samples = (\<lambda>b y x. [10, 20, 30] ! b)\<rparr>"

definition out_of_range :: dataset where
  "out_of_range = \<lparr>count = 3, height = 1, width = 2,
     samples = (\<lambda>b y x. [[300, 256], [-1, 255], [1000, -256]] ! b ! x)\<rparr>"

section \<open>Saving: \<^verbatim>\<open>save_img\<close>\<close>

text \<open>
  Modelled from the spec: \<^verbatim>\<open>trim_slash_from_path\<close> is imported from the module
  \<^verbatim>\<open>util\<close>, which is not among the sources. The spec says that \<^verbatim>\<open>save\<close>
  "normalizes \<^verbatim>\<open>output_dir\<close> by stripping any trailing path separators".
\<close>

definition trim_slash_from_path :: "string \<Rightarrow> string" where
  "trim_slash_from_path p = rev (dropWhile (\<lambda>c. c = CHR ''/'') (rev p))"

text \<open>
  Paths as pathlib reads them: the components between slashes, empty components and
  \<^verbatim>\<open>.\<close> dropped, with \<^verbatim>\<open>/\<close> as first component of an absolute path.
\<close>

fun split_slash :: "string \<Rightarrow> string list" where
  "split_slash [] = [[]]"
| "split_slash (c # cs) =
     (if c = CHR ''/'' then [] # split_slash cs
      else (case split_slash cs of [] \<Rightarrow> [[c]] | w # ws \<Rightarrow> (c # w) # ws))"

definition parts :: "string \<Rightarrow> string list" where
  "parts p = (if take 1 p = ''/'' then [''/''] else []) @
             filter (\<lambda>c. c \<noteq> [] \<and> c \<noteq> ''.'') (split_slash p)"

text \<open>A path and its parents, the outermost first.\<close>

fun self_and_parents :: "string list \<Rightarrow> string list list" where
  "self_and_parents [] = []"
| "self_and_parents (c # cs) = [c] # map ((#) c) (self_and_parents cs)"

text \<open>The local file system: the directories and the image files.\<close>

record filesys =
  dirs :: "string list set"
  files :: "string list \<rightharpoonup> rgb_image"

definition is_dir :: "filesys \<Rightarrow> string list \<Rightarrow> bool" where
  "is_dir fs p \<longleftrightarrow> p = [] \<or> p = [''/''] \<or> p \<in> dirs fs"

text \<open>
  \<^verbatim>\<open>Path(d).mkdir(parents=True, exist_ok=True)\<close>: an existing directory is not an
  error; a file in the way is.
\<close>

definition mkdir :: "string \<Rightarrow> filesys \<Rightarrow> error + filesys" where
  "mkdir d fs =
     (let p = parts d in
      if files fs p \<noteq> None then Inl FileExistsError
      else if list_ex (\<lambda>q. files fs q \<noteq> None) (self_and_parents p) then Inl NotADirectoryError
      else Inr (fs\<lparr>dirs := dirs fs \<union> set (self_and_parents p)\<rparr>))"

text \<open>
  \<^verbatim>\<open>img.save(fname)\<close>: PIL picks the encoder from the extension of the name and raises
  \<^verbatim>\<open>ValueError\<close> for one it does not know, before it opens the file. Which names
  have a known extension is PIL's table, a parameter here.
\<close>

definition save :: "(string \<Rightarrow> bool) \<Rightarrow> rgb_image \<Rightarrow> string \<Rightarrow> filesys \<Rightarrow> error + filesys" where
  "save known_extension img fname fs =
     (let p = parts fname in
      if \<not> known_extension fname then Inl ValueError
      else if is_dir fs p then Inl IsADirectoryError
      else if list_ex (\<lambda>q. files fs q \<noteq> None) (self_and_parents (butlast p))
        then Inl NotADirectoryError
      else if \<not> is_dir fs (butlast p) then Inl FileNotFoundError
      else Inr (fs\<lparr>files := (files fs)(p \<mapsto> img)\<rparr>))"

text \<open>
  The function, with the helper it imports as a parameter. The result is the exception
  or \<open>()\<close>, with the file system as the call leaves it.
\<close>

definition save_img ::
  "(string \<Rightarrow> string) \<Rightarrow> (string \<Rightarrow> bool) \<Rightarrow> filesys \<Rightarrow> rgb_image \<Rightarrow> string \<Rightarrow> string \<Rightarrow> string \<Rightarrow>
   (error + unit) \<times> filesys"
where
  "save_img trim known_extension fs img_arr name format output_dir =
     (let output_dir = trim output_dir;
          fname = output_dir @ ''/'' @ name @ ''.'' @ format
      in case mkdir output_dir fs of
           Inl e \<Rightarrow> (Inl e, fs)
         | Inr fs1 \<Rightarrow>
             (case save known_extension img_arr fname fs1 of
                Inl e \<Rightarrow> (Inl e, fs1)
              | Inr fs2 \<Rightarrow> (Inr (), fs2)))"

text \<open>An empty file system and an image of one pixel, for the examples.\<close>

definition empty_disk :: filesys where
  "empty_disk = \<lparr>dirs = {}, files = Map.empty\<rparr>"

definition pixel :: rgb_image where
  "pixel = \<lparr>img_size = (1, 1), pixels = [[[10, 20, 30]]]\<rparr>"

section \<open>The wait for the export\<close>

lemma polling_Suc: "[TaskActive tid, Sleep 1] @ polling tid n = polling tid (Suc n)"
  by (simp add: polling_def)

lemma await_returns:
  "(\<forall>j<n. act (k + j) = Inr True) \<Longrightarrow> act (k + n) = Inr False \<Longrightarrow>
   await_completion act tid k tr = Some (Inr (), tr @ polling tid n)"
proof (induction n arbitrary: k tr)
  case 0
  then show ?case by (subst await_completion.simps) (simp add: polling_def)
next
  case (Suc n)
  have a: "act k = Inr True" using Suc.prems(1) [rule_format, of 0] by simp
  have b: "\<forall>j<n. act (Suc k + j) = Inr True" using Suc.prems(1) by auto
  have c: "act (Suc k + n) = Inr False" using Suc.prems(2) by simp
  show ?case
    by (subst await_completion.simps) (simp add: a Suc.IH [OF b c] flip: polling_Suc)
qed

lemma polled_stop:
  "act k = Inl e \<Longrightarrow> polled act tid k tr (Inl e, tr @ [TaskActive tid])"
  "act k = Inr False \<Longrightarrow> polled act tid k tr (Inr (), tr @ [TaskActive tid])"
  unfolding polled_def by (rule exI [of _ 0], simp add: polling_def)+

lemma polled_step:
  assumes a: "act k = Inr True"
    and p: "polled act tid (Suc k) (tr @ [TaskActive tid, Sleep 1]) y"
  shows "polled act tid k tr y"
proof -
  from p obtain n where n1: "\<forall>j<n. act (Suc k + j) = Inr True"
    and n2: "snd y = (tr @ [TaskActive tid, Sleep 1]) @ polling tid n"
    and n3: "(case fst y of Inl e \<Rightarrow> act (Suc k + n) = Inl e | Inr _ \<Rightarrow> act (Suc k + n) = Inr False)"
    unfolding polled_def by (elim exE conjE)
  have "act (k + j) = Inr True" if "j < Suc n" for j
  proof (cases j)
    case 0 then show ?thesis using a by simp
  next
    case (Suc i) then show ?thesis using n1 that by simp
  qed
  then have m1: "\<forall>j<Suc n. act (k + j) = Inr True" by simp
  have m2: "snd y = tr @ polling tid (Suc n)" using n2 by (simp flip: polling_Suc)
  have m3: "(case fst y of Inl e \<Rightarrow> act (k + Suc n) = Inl e | Inr _ \<Rightarrow> act (k + Suc n) = Inr False)"
    using n3 by (cases "fst y") simp_all
  show ?thesis unfolding polled_def using m1 m2 m3 by (intro exI [of _ "Suc n"] conjI)
qed

lemma await_only_aux:
  assumes "await_completion act tid k tr = Some y"
  shows "polled act tid k tr y"
proof (rule await_completion.raw_induct [where P = polled])
  show "await_completion act tid k tr = Some y" by (rule assms)
next
  fix f :: "(nat \<Rightarrow> error + bool) \<Rightarrow> string \<Rightarrow> nat \<Rightarrow> event list \<Rightarrow> ((error + unit) \<times> event list) option"
  fix a t i s z
  assume IH: "\<And>a t i s z. f a t i s = Some z \<Longrightarrow> polled a t i s z"
    and eq: "(case a i of
                  Inl e \<Rightarrow> Some (Inl e, s @ [TaskActive t])
                | Inr b \<Rightarrow> if b then f a t (Suc i) (s @ [TaskActive t, Sleep 1])
                           else Some (Inr (), s @ [TaskActive t])) = Some z"
  show "polled a t i s z"
  proof (cases "a i")
    case (Inl e)
    with eq have "z = (Inl e, s @ [TaskActive t])" by simp
    with Inl show ?thesis by (simp add: polled_stop)
  next
    case (Inr b)
    show ?thesis
    proof (cases b)
      case False
      with Inr eq have "z = (Inr (), s @ [TaskActive t])" by simp
      with Inr False show ?thesis by (simp add: polled_stop)
    next
      case True
      with Inr eq have "f a t (Suc i) (s @ [TaskActive t, Sleep 1]) = Some z" by simp
      then have p: "polled a t (Suc i) (s @ [TaskActive t, Sleep 1]) z" by (rule IH)
      from Inr True have "a i = Inr True" by simp
      then show ?thesis using p by (rule polled_step)
    qed
  qed
qed


lemma await_completion_iff:
  "await_completion act tid k tr = Some (Inr (), tr') \<longleftrightarrow>
   (\<exists>n. (\<forall>j<n. act (k + j) = Inr True) \<and> act (k + n) = Inr False \<and> tr' = tr @ polling tid n)"
proof
  assume "await_completion act tid k tr = Some (Inr (), tr')"
  then have "polled act tid k tr (Inr (), tr')" by (rule await_only_aux)
  then show "\<exists>n. (\<forall>j<n. act (k + j) = Inr True) \<and> act (k + n) = Inr False \<and> tr' = tr @ polling tid n"
    by (auto simp: polled_def)
next
  assume "\<exists>n. (\<forall>j<n. act (k + j) = Inr True) \<and> act (k + n) = Inr False \<and> tr' = tr @ polling tid n"
  then obtain n where "\<forall>j<n. act (k + j) = Inr True" "act (k + n) = Inr False" "tr' = tr @ polling tid n"
    by (elim exE conjE)
  then show "await_completion act tid k tr = Some (Inr (), tr')"
    by (simp add: await_returns)
qed

lemma await_completion_Inl:
  "await_completion act tid k tr = Some (Inl e, tr') \<Longrightarrow> \<exists>n. act (k + n) = Inl e \<and> tr' = tr @ polling tid n"
  by (drule await_only_aux) (auto simp: polled_def)

text \<open>
  Claim C2. The wait returns normally exactly when some status query answers "not active"
  after queries that all answered "active": it returns only once the job has left the
  active set. The trace it adds then ends with that last query, so at least one query is
  made, and every earlier query is followed by a sleep of one second before the next.
\<close>

theorem await_completion_polls:
  "await_completion act tid k tr = Some (Inr (), tr') \<longleftrightarrow>
   (\<exists>n. (\<forall>j<n. act (k + j) = Inr True) \<and> act (k + n) = Inr False \<and>
        tr' = tr @ concat (replicate n [TaskActive tid, Sleep 1]) @ [TaskActive tid])"
  unfolding await_completion_iff polling_def ..

theorem await_completion_polls_witness:
  "await_completion (\<lambda>i. Inr (i < 2)) ''T1'' 0 [] =
     Some (Inr (), [TaskActive ''T1'', Sleep 1, TaskActive ''T1'', Sleep 1, TaskActive ''T1''])"
proof -
  have "\<exists>n. (\<forall>j<n. (\<lambda>i. Inr (i < 2) :: error + bool) (0 + j) = Inr True) \<and>
          (\<lambda>i. Inr (i < 2) :: error + bool) (0 + n) = Inr False \<and>
          [TaskActive ''T1'', Sleep 1, TaskActive ''T1'', Sleep 1, TaskActive ''T1''] =
            [] @ concat (replicate n [TaskActive ''T1'', Sleep 1]) @ [TaskActive ''T1'']"
    by (rule exI [of _ "Suc (Suc 0)"]) simp
  then show ?thesis by (rule await_completion_polls [THEN iffD2])
qed

section \<open>The export and its region\<close>

lemma extract_Inr_iff:
  "extract_geotiff_from_gee rem dn bands sd ed od desc mpp xmin ymin xmax ymax = Some (Inr (), tr) \<longleftrightarrow>
   (\<exists>tid n. Initialize rem = Inr () \<and>
      start rem (toDrive dn bands sd ed od desc mpp xmin ymin xmax ymax) = Inr tid \<and>
      (\<forall>j<n. active rem tid j = Inr True) \<and> active rem tid n = Inr False \<and>
      tr = [EEInitialize, TaskStart (toDrive dn bands sd ed od desc mpp xmin ymin xmax ymax),
            Print (working_notice tid)] @ polling tid n @ [Print (complete_notice od desc)])"
  (is "?L \<longleftrightarrow> ?R")
proof (cases "Initialize rem")
  case (Inl e)
  then show ?thesis by (simp add: extract_geotiff_from_gee_def)
next
  case i: (Inr u)
  let ?task = "toDrive dn bands sd ed od desc mpp xmin ymin xmax ymax"
  show ?thesis
  proof (cases "start rem ?task")
    case (Inl e)
    with i show ?thesis by (simp add: extract_geotiff_from_gee_def)
  next
    case s: (Inr tid)
    let ?tr0 = "[EEInitialize, TaskStart ?task, Print (working_notice tid)]"
    have unfold: "extract_geotiff_from_gee rem dn bands sd ed od desc mpp xmin ymin xmax ymax =
       (case await_completion (active rem tid) tid 0 ?tr0 of
          None \<Rightarrow> None
        | Some (Inl e, tr) \<Rightarrow> Some (Inl e, tr)
        | Some (Inr _, tr) \<Rightarrow> Some (Inr (), tr @ [Print (complete_notice od desc)]))"
      using i s by (simp add: extract_geotiff_from_gee_def)
    have "?L \<longleftrightarrow> (\<exists>tr1. await_completion (active rem tid) tid 0 ?tr0 = Some (Inr (), tr1) \<and>
                     tr = tr1 @ [Print (complete_notice od desc)])"
      unfolding unfold by (auto split: option.splits sum.splits)
    also have "\<dots> \<longleftrightarrow> (\<exists>n. (\<forall>j<n. active rem tid j = Inr True) \<and> active rem tid n = Inr False \<and>
                     tr = ?tr0 @ polling tid n @ [Print (complete_notice od desc)])"
      unfolding await_completion_iff by (simp add: ex_simps [symmetric] del: ex_simps)
    also have "\<dots> \<longleftrightarrow> ?R" using i s by auto
    finally show ?thesis .
  qed
qed

lemma extract_Inl:
  assumes "extract_geotiff_from_gee rem dn bands sd ed od desc mpp xmin ymin xmax ymax = Some (Inl e, tr)"
  shows "take 1 tr = [EEInitialize] \<and>
     (Initialize rem = Inl e \<or>
      start rem (toDrive dn bands sd ed od desc mpp xmin ymin xmax ymax) = Inl e \<or>
      (\<exists>tid k. start rem (toDrive dn bands sd ed od desc mpp xmin ymin xmax ymax) = Inr tid \<and>
               active rem tid k = Inl e))"
proof (cases "Initialize rem")
  case (Inl e')
  with assms show ?thesis by (auto simp: extract_geotiff_from_gee_def)
next
  case i: (Inr u)
  let ?task = "toDrive dn bands sd ed od desc mpp xmin ymin xmax ymax"
  show ?thesis
  proof (cases "start rem ?task")
    case (Inl e')
    with i assms show ?thesis by (auto simp: extract_geotiff_from_gee_def)
  next
    case s: (Inr tid)
    let ?tr0 = "[EEInitialize, TaskStart ?task, Print (working_notice tid)]"
    from assms i s have "await_completion (active rem tid) tid 0 ?tr0 = Some (Inl e, tr)"
      by (auto simp: extract_geotiff_from_gee_def split: option.splits sum.splits)
    from await_completion_Inl [OF this] obtain n where "active rem tid (0 + n) = Inl e"
      "tr = ?tr0 @ polling tid n" by (elim exE conjE)
    with s show ?thesis by auto
  qed
qed


text \<open>
  Claim C1, as amended. The function makes no check of the region. For every four bounds,
  in any order, it returns normally exactly when the service accepts the initialisation
  and the submission of the task and a status query answers "not active" after queries
  that answered "active"; an exception that leaves it is one the service raised, after
  the initialisation was requested; and the task carries the bounds as they were given.
\<close>

theorem extract_geotiff_from_gee_unchecked_region:
  "(extract_geotiff_from_gee rem dn bands sd ed od desc mpp xmin ymin xmax ymax = Some (Inr (), tr) \<longleftrightarrow>
     (\<exists>tid n. Initialize rem = Inr () \<and>
        start rem (toDrive dn bands sd ed od desc mpp xmin ymin xmax ymax) = Inr tid \<and>
        (\<forall>j<n. active rem tid j = Inr True) \<and> active rem tid n = Inr False \<and>
        tr = [EEInitialize, TaskStart (toDrive dn bands sd ed od desc mpp xmin ymin xmax ymax),
              Print (working_notice tid)] @
             concat (replicate n [TaskActive tid, Sleep 1]) @
             [TaskActive tid, Print (complete_notice od desc)])) \<and>
   (extract_geotiff_from_gee rem dn bands sd ed od desc mpp xmin ymin xmax ymax = Some (Inl e, tr) \<longrightarrow>
      take 1 tr = [EEInitialize] \<and>
      (Initialize rem = Inl e \<or>
       start rem (toDrive dn bands sd ed od desc mpp xmin ymin xmax ymax) = Inl e \<or>
       (\<exists>tid k. start rem (toDrive dn bands sd ed od desc mpp xmin ymin xmax ymax) = Inr tid \<and>
                active rem tid k = Inl e))) \<and>
   region (toDrive dn bands sd ed od desc mpp xmin ymin xmax ymax) = [xmin, ymin, xmax, ymax]"
proof (intro conjI impI)
  show "extract_geotiff_from_gee rem dn bands sd ed od desc mpp xmin ymin xmax ymax = Some (Inr (), tr) \<longleftrightarrow>
     (\<exists>tid n. Initialize rem = Inr () \<and>
        start rem (toDrive dn bands sd ed od desc mpp xmin ymin xmax ymax) = Inr tid \<and>
        (\<forall>j<n. active rem tid j = Inr True) \<and> active rem tid n = Inr False \<and>
        tr = [EEInitialize, TaskStart (toDrive dn bands sd ed od desc mpp xmin ymin xmax ymax),
              Print (working_notice tid)] @
             concat (replicate n [TaskActive tid, Sleep 1]) @
             [TaskActive tid, Print (complete_notice od desc)])"
    unfolding extract_Inr_iff polling_def by simp
next
  assume "extract_geotiff_from_gee rem dn bands sd ed od desc mpp xmin ymin xmax ymax = Some (Inl e, tr)"
  from extract_Inl [OF this]
  show "take 1 tr = [EEInitialize]"
    and "Initialize rem = Inl e \<or>
       start rem (toDrive dn bands sd ed od desc mpp xmin ymin xmax ymax) = Inl e \<or>
       (\<exists>tid k. start rem (toDrive dn bands sd ed od desc mpp xmin ymin xmax ymax) = Inr tid \<and>
                active rem tid k = Inl e)"
    by (rule conjunct1, rule conjunct2)
next
  show "region (toDrive dn bands sd ed od desc mpp xmin ymin xmax ymax) = [xmin, ymin, xmax, ymax]"
    by (simp add: toDrive_def)
qed

theorem extract_geotiff_from_gee_unchecked_region_witness:
  "\<not> (1 < (0 :: real)) \<and>
   extract_geotiff_from_gee accepting ''USDA/NAIP/DOQQ'' [''R'', ''G'', ''B''] ''2017-01-01''
       ''2018-12-31'' ''UtiliGEE_Exports'' ''nyc'' 30 1 1 0 0 =
     Some (Inr (),
       [EEInitialize,
        TaskStart (toDrive ''USDA/NAIP/DOQQ'' [''R'', ''G'', ''B''] ''2017-01-01'' ''2018-12-31''
                     ''UtiliGEE_Exports'' ''nyc'' 30 1 1 0 0),
        Print (working_notice ''T1''),
        TaskActive ''T1'', Sleep 1, TaskActive ''T1'',
        Print (complete_notice ''UtiliGEE_Exports'' ''nyc'')])"
proof -
  let ?task = "toDrive ''USDA/NAIP/DOQQ'' [''R'', ''G'', ''B''] ''2017-01-01'' ''2018-12-31''
                     ''UtiliGEE_Exports'' ''nyc'' 30 1 1 0 0"
  let ?tr = "[EEInitialize, TaskStart ?task, Print (working_notice ''T1''),
        TaskActive ''T1'', Sleep 1, TaskActive ''T1'',
        Print (complete_notice ''UtiliGEE_Exports'' ''nyc'')]"
  have "\<exists>tid n. Initialize accepting = Inr () \<and> start accepting ?task = Inr tid \<and>
        (\<forall>j<n. active accepting tid j = Inr True) \<and> active accepting tid n = Inr False \<and>
        ?tr = [EEInitialize, TaskStart ?task, Print (working_notice tid)] @
             concat (replicate n [TaskActive tid, Sleep 1]) @
             [TaskActive tid, Print (complete_notice ''UtiliGEE_Exports'' ''nyc'')]"
    by (rule exI [of _ "''T1''"], rule exI [of _ "Suc 0"]) (simp add: accepting_def)
  then have "extract_geotiff_from_gee accepting ''USDA/NAIP/DOQQ'' [''R'', ''G'', ''B''] ''2017-01-01''
       ''2018-12-31'' ''UtiliGEE_Exports'' ''nyc'' 30 1 1 0 0 = Some (Inr (), ?tr)"
    by (rule extract_geotiff_from_gee_unchecked_region [THEN conjunct1, THEN iffD2])
  then show ?thesis by simp
qed

text \<open>
  Claim C1 as stated fails: with the region the command line passes when none is given
  (\<^verbatim>\<open>utiligee.py\<close>, line 20), whose \<open>ymin\<close> is above its \<open>ymax\<close>, the function
  calls the service and returns normally.
\<close>

theorem extract_geotiff_from_gee_accepts_inverted_region:
  "(40.7175360876491 :: real) \<ge> 40.69053317927286 \<and>
   extract_geotiff_from_gee accepting ''USDA/NAIP/DOQQ'' [''R'', ''G'', ''B''] ''2017-01-01''
       ''2018-12-31'' ''UtiliGEE_Exports'' ''nyc'' 30
       (-74.02065034469021) 40.7175360876491 (-73.96855111678494) 40.69053317927286 =
     Some (Inr (),
       [EEInitialize,
        TaskStart (toDrive ''USDA/NAIP/DOQQ'' [''R'', ''G'', ''B''] ''2017-01-01'' ''2018-12-31''
                     ''UtiliGEE_Exports'' ''nyc'' 30
                     (-74.02065034469021) 40.7175360876491 (-73.96855111678494) 40.69053317927286),
        Print (working_notice ''T1''),
        TaskActive ''T1'', Sleep 1, TaskActive ''T1'',
        Print (complete_notice ''UtiliGEE_Exports'' ''nyc'')])"
  by (simp add: extract_geotiff_from_gee_def accepting_def await_completion.simps)

section \<open>The conversion of a raster\<close>

lemma map2_replicate_upt:
  "map2 f (replicate n z) (map g [0..<n]) = map (\<lambda>i. f z (g i)) [0..<n]"
  by (simp add: zip_replicate1 comp_def)

lemma assign_channel_zeros:
  "assign_channel c \<lparr>shape2 = s2, data2 = map (\<lambda>y. map (\<lambda>x. R y x) [0..<w]) [0..<h]\<rparr>
       (zeros (h, w, n)) =
   \<lparr>shape3 = (h, w, n),
    data3 = map (\<lambda>y. map (\<lambda>x. (replicate n 0)[c := astype_uint8 (R y x)]) [0..<w]) [0..<h]\<rparr>"
  by (simp add: assign_channel_def zeros_def map2_replicate_upt)

lemma assign_channel_grid:
  "assign_channel c \<lparr>shape2 = s2, data2 = map (\<lambda>y. map (\<lambda>x. R y x) [0..<w]) [0..<h]\<rparr>
       \<lparr>shape3 = s3, data3 = map (\<lambda>y. map (\<lambda>x. P y x) [0..<w]) [0..<h]\<rparr> =
   \<lparr>shape3 = s3,
    data3 = map (\<lambda>y. map (\<lambda>x. (P y x)[c := astype_uint8 (R y x)]) [0..<w]) [0..<h]\<rparr>"
  by (simp add: assign_channel_def map2_map_map)

lemma three_zeros: "replicate 3 (0 :: u8) = [0, 0, 0]"
  by (simp add: numeral_3_eq_3)

lemma arr_from_geotiff_pixels:
  assumes "disk (tif_name fname) = Some src"
    and "1 \<le> rc" "rc \<le> int (count src)"
    and "1 \<le> gc" "gc \<le> int (count src)"
    and "1 \<le> bc" "bc \<le> int (count src)"
  shows "arr_from_geotiff disk fname rc gc bc =
    (tif_name fname,
     Inr \<lparr>img_size = (width src, height src),
          pixels = map (\<lambda>y. map (\<lambda>x. [astype_uint8 (samples src (nat (rc - 1)) y x),
                                         astype_uint8 (samples src (nat (gc - 1)) y x),
                                         astype_uint8 (samples src (nat (bc - 1)) y x)])
                                [0..<width src]) [0..<height src]\<rparr>)"
  using assms
  by (simp add: arr_from_geotiff_def read_def assign_channel_zeros assign_channel_grid
      fromarray_def three_zeros)

lemma uint_astype_uint8: "uint (astype_uint8 v) = v mod 256"
  by (simp add: astype_uint8_def uint_word_of_int)


lemma assign_channel_uniform:
  "assign_channel c \<lparr>shape2 = s2, data2 = uniform h w v\<rparr>
       \<lparr>shape3 = s3, data3 = uniform h w px\<rparr> =
   \<lparr>shape3 = s3, data3 = uniform h w (px[c := astype_uint8 v])\<rparr>"
  by (simp add: assign_channel_def uniform_def)

lemma zeros_uniform: "zeros (h, w, 3) = \<lparr>shape3 = (h, w, 3), data3 = uniform h w [0, 0, 0]\<rparr>"
  by (simp add: zeros_def uniform_def three_zeros)

lemma map_constant: "\<forall>x \<in> set xs. f x = v \<Longrightarrow> map f xs = replicate (length xs) v"
  by (induction xs) auto

lemma read_constant:
  assumes "band_is_constant src i v"
  shows "read src i = Inr \<lparr>shape2 = (height src, width src),
                           data2 = uniform (height src) (width src) v\<rparr>"
proof -
  from assms have i: "1 \<le> i" "i \<le> int (count src)"
    and all: "\<forall>y \<in> set [0..<height src]. \<forall>x \<in> set [0..<width src].
                samples src (nat (i - 1)) y x = v"
    by (simp_all add: band_is_constant_def list_all_iff)
  have row: "map (\<lambda>x. samples src (nat (i - 1)) y x) [0..<width src] = replicate (width src) v"
    if "y \<in> set [0..<height src]" for y
    using all that map_constant [of "[0..<width src]" "\<lambda>x. samples src (nat (i - 1)) y x" v]
    by simp
  have "map (\<lambda>y. map (\<lambda>x. samples src (nat (i - 1)) y x) [0..<width src]) [0..<height src] =
        replicate (height src) (replicate (width src) v)"
    using row
      map_constant [of "[0..<height src]"
        "\<lambda>y. map (\<lambda>x. samples src (nat (i - 1)) y x) [0..<width src]" "replicate (width src) v"]
    by simp
  with i show ?thesis by (simp add: read_def uniform_def)
qed

lemma arr_from_geotiff_constant:
  assumes "disk (tif_name fname) = Some src"
    and "band_is_constant src rc vr" "band_is_constant src gc vg" "band_is_constant src bc vb"
  shows "snd (arr_from_geotiff disk fname rc gc bc) =
     Inr \<lparr>img_size = (width src, height src),
          pixels = uniform (height src) (width src)
                     [astype_uint8 vr, astype_uint8 vg, astype_uint8 vb]\<rparr>"
  using assms(1)
  by (simp add: arr_from_geotiff_def read_constant [OF assms(2)] read_constant [OF assms(3)]
      read_constant [OF assms(4)] zeros_uniform assign_channel_uniform fromarray_def)

lemma channel_uniform:
  "channel c \<lparr>img_size = s, pixels = uniform h w px\<rparr> = uniform h w (px ! c)"
  by (simp add: channel_def uniform_def)

lemma three_band_constant:
  "band_is_constant (three_band h w) 1 10"
  "band_is_constant (three_band h w) 2 20"
  "band_is_constant (three_band h w) 3 30"
  by (simp_all add: band_is_constant_def three_band_def list_all_iff)

text \<open>
  Claim C3. For a raster of three bands that hold 10, 20 and 30 everywhere, the call with
  the default channels 1, 2, 3 returns an image whose channel 0 is 10 everywhere, channel 1
  is 20 and channel 2 is 30, of the width and height of the raster.
\<close>

theorem arr_from_geotiff_default_channels:
  assumes "disk (tif_name fname) = Some src"
    and "count src = 3"
    and "band_is_constant src 1 10" "band_is_constant src 2 20" "band_is_constant src 3 30"
  shows "\<exists>img. snd (arr_from_geotiff disk fname 1 2 3) = Inr img \<and>
           channel 0 img = uniform (height src) (width src) 10 \<and>
           channel 1 img = uniform (height src) (width src) 20 \<and>
           channel 2 img = uniform (height src) (width src) 30 \<and>
           img_size img = (width src, height src)"
  by (simp add: arr_from_geotiff_constant [of disk fname, OF assms(1,3,4,5)] channel_uniform astype_uint8_def)

theorem arr_from_geotiff_default_channels_witness:
  "\<exists>img. snd (arr_from_geotiff [''raw/nyc.tif'' \<mapsto> three_band 2 3] ''raw/nyc.tif'' 1 2 3) = Inr img \<and>
         channel 0 img = [[10, 10, 10], [10, 10, 10]] \<and>
         channel 1 img = [[20, 20, 20], [20, 20, 20]] \<and>
         channel 2 img = [[30, 30, 30], [30, 30, 30]] \<and>
         img_size img = (3, 2)"
  using arr_from_geotiff_default_channels [of "[''raw/nyc.tif'' \<mapsto> three_band 2 3]" "''raw/nyc.tif''" "three_band 2 3"]
  by (simp add: three_band_constant tif_name_def endswith_def)
     (simp add: three_band_def uniform_def numeral_2_eq_2 numeral_3_eq_3)

text \<open>
  Claim C4. Channel 0 comes from the band given as red, channel 1 from the band given as
  green and channel 2 from the band given as blue, for any choice of the three band
  numbers; on the raster holding 10, 20 and 30 the channels 3, 1, 2 give 30, 10 and 20.
\<close>

theorem arr_from_geotiff_channel_order:
  "(disk (tif_name fname) = Some src \<longrightarrow>
    band_is_constant src rc vr \<longrightarrow> band_is_constant src gc vg \<longrightarrow> band_is_constant src bc vb \<longrightarrow>
      (\<exists>img. snd (arr_from_geotiff disk fname rc gc bc) = Inr img \<and>
         channel 0 img = uniform (height src) (width src) (astype_uint8 vr) \<and>
         channel 1 img = uniform (height src) (width src) (astype_uint8 vg) \<and>
         channel 2 img = uniform (height src) (width src) (astype_uint8 vb))) \<and>
   (disk (tif_name fname) = Some src \<longrightarrow>
    band_is_constant src 1 10 \<longrightarrow> band_is_constant src 2 20 \<longrightarrow> band_is_constant src 3 30 \<longrightarrow>
      (\<exists>img. snd (arr_from_geotiff disk fname 3 1 2) = Inr img \<and>
         channel 0 img = uniform (height src) (width src) 30 \<and>
         channel 1 img = uniform (height src) (width src) 10 \<and>
         channel 2 img = uniform (height src) (width src) 20))"
  by (simp add: arr_from_geotiff_constant channel_uniform astype_uint8_def)

theorem arr_from_geotiff_channel_order_witness:
  "(\<exists>img. snd (arr_from_geotiff [''raw/nyc.tif'' \<mapsto> three_band 2 2] ''raw/nyc'' 2 3 1) = Inr img \<and>
         channel 0 img = [[20, 20], [20, 20]] \<and>
         channel 1 img = [[30, 30], [30, 30]] \<and>
         channel 2 img = [[10, 10], [10, 10]]) \<and>
   (\<exists>img. snd (arr_from_geotiff [''raw/nyc.tif'' \<mapsto> three_band 2 2] ''raw/nyc'' 3 1 2) = Inr img \<and>
         channel 0 img = [[30, 30], [30, 30]] \<and>
         channel 1 img = [[10, 10], [10, 10]] \<and>
         channel 2 img = [[20, 20], [20, 20]])"
  using arr_from_geotiff_channel_order [of "[''raw/nyc.tif'' \<mapsto> three_band 2 2]" "''raw/nyc''" "three_band 2 2" 2 20 3 30 1 10]
  by (simp add: three_band_constant tif_name_def endswith_def)
     (simp add: three_band_def uniform_def numeral_2_eq_2 astype_uint8_def)

text \<open>
  Claim C7. Whatever the samples are, the call does not raise for a band number in range,
  and each stored cell is the sample modulo \<open>2\<^sup>8\<close>: a sample outside 0..255 wraps
  around and is not clamped.
\<close>

theorem arr_from_geotiff_wraps:
  assumes "disk (tif_name fname) = Some src"
    and "1 \<le> rc" "rc \<le> int (count src)"
    and "1 \<le> gc" "gc \<le> int (count src)"
    and "1 \<le> bc" "bc \<le> int (count src)"
    and "y < height src" "x < width src"
  shows "\<exists>img. snd (arr_from_geotiff disk fname rc gc bc) = Inr img \<and>
           uint (pixels img ! y ! x ! 0) = samples src (nat (rc - 1)) y x mod 2 ^ 8 \<and>
           uint (pixels img ! y ! x ! 1) = samples src (nat (gc - 1)) y x mod 2 ^ 8 \<and>
           uint (pixels img ! y ! x ! 2) = samples src (nat (bc - 1)) y x mod 2 ^ 8"
  using assms(8,9)
  by (simp add: arr_from_geotiff_pixels [of disk fname, OF assms(1-7)] uint_astype_uint8)

theorem arr_from_geotiff_wraps_witness:
  "\<exists>img. snd (arr_from_geotiff [''raw/big.tif'' \<mapsto> out_of_range] ''raw/big'' 1 2 3) = Inr img \<and>
         uint (pixels img ! 0 ! 0 ! 0) = 44 \<and>
         uint (pixels img ! 0 ! 0 ! 1) = 255 \<and>
         uint (pixels img ! 0 ! 0 ! 2) = 232"
  using arr_from_geotiff_wraps [of "[''raw/big.tif'' \<mapsto> out_of_range]" "''raw/big''" out_of_range 1 2 3 0 0]
  by (simp add: tif_name_def endswith_def out_of_range_def)

section \<open>The name of the raster file\<close>

lemma endswith_append: "endswith (p @ s) s"
  by (simp add: endswith_def)

text \<open>
  Claim C6. For a name that does not end in \<^verbatim>\<open>.tif\<close>, the call with the name and the
  call with the name followed by \<^verbatim>\<open>.tif\<close> open the same file and give the same
  result.
\<close>

theorem arr_from_geotiff_suffix_added:
  "\<not> endswith p ''.tif'' \<Longrightarrow>
   arr_from_geotiff disk p rc gc bc = arr_from_geotiff disk (p @ ''.tif'') rc gc bc \<and>
   fst (arr_from_geotiff disk p rc gc bc) = p @ ''.tif'' \<and>
   fst (arr_from_geotiff disk (p @ ''.tif'') rc gc bc) = p @ ''.tif''"
  by (simp add: arr_from_geotiff_def tif_name_def endswith_append Let_def)

theorem arr_from_geotiff_suffix_added_witness:
  "\<not> endswith ''raw/nyc'' ''.tif'' \<and>
   arr_from_geotiff [''raw/nyc.tif'' \<mapsto> three_band 1 1] ''raw/nyc'' 1 2 3 =
     arr_from_geotiff [''raw/nyc.tif'' \<mapsto> three_band 1 1] ''raw/nyc.tif'' 1 2 3 \<and>
   fst (arr_from_geotiff [''raw/nyc.tif'' \<mapsto> three_band 1 1] ''raw/nyc'' 1 2 3) = ''raw/nyc.tif'' \<and>
   fst (arr_from_geotiff [''raw/nyc.tif'' \<mapsto> three_band 1 1] ''raw/nyc.tif'' 1 2 3) = ''raw/nyc.tif''"
proof -
  have h: "\<not> endswith ''raw/nyc'' ''.tif''" by (simp add: endswith_def)
  show ?thesis
    using h arr_from_geotiff_suffix_added [OF h, of "[''raw/nyc.tif'' \<mapsto> three_band 1 1]" 1 2 3] by simp
qed

text \<open>
  Claim C9. The name that is opened always ends in \<^verbatim>\<open>.tif\<close>; the test is on the exact
  suffix, so a name ending in \<^verbatim>\<open>.tiff\<close> or \<^verbatim>\<open>.TIF\<close> gets \<^verbatim>\<open>.tif\<close> appended.
\<close>

theorem arr_from_geotiff_opens_tif:
  "endswith (fst (arr_from_geotiff disk p rc gc bc)) ''.tif'' \<and>
   fst (arr_from_geotiff disk (p @ ''.tiff'') rc gc bc) = p @ ''.tiff.tif'' \<and>
   fst (arr_from_geotiff disk (p @ ''.TIF'') rc gc bc) = p @ ''.TIF.tif''"
proof -
  have a: "endswith (tif_name p) ''.tif''"
    unfolding tif_name_def using endswith_append [of p "''.tif''"] by simp
  have b: "\<not> endswith (p @ ''.tiff'') ''.tif''" by (simp add: endswith_def)
  have c: "\<not> endswith (p @ ''.TIF'') ''.tif''" by (simp add: endswith_def)
  show ?thesis using a b c by (simp add: arr_from_geotiff_def tif_name_def Let_def)
qed


theorem arr_from_geotiff_opens_tif_witness:
  "endswith (fst (arr_from_geotiff Map.empty ''raw/nyc'' 1 2 3)) ''.tif'' \<and>
   fst (arr_from_geotiff Map.empty ''raw/nyc.tiff'' 1 2 3) = ''raw/nyc.tiff.tif'' \<and>
   fst (arr_from_geotiff Map.empty ''raw/nyc.TIF'' 1 2 3) = ''raw/nyc.TIF.tif''"
  using arr_from_geotiff_opens_tif [of Map.empty "''raw/nyc''" 1 2 3]
  by simp

section \<open>Saving an image\<close>

lemma trim_slash_append_slash: "trim_slash_from_path (d @ ''/'') = trim_slash_from_path d"
  by (simp add: trim_slash_from_path_def)

lemma split_slash_not_Nil: "split_slash s \<noteq> []"
  by (induction s) (auto split: list.splits)

lemma split_slash_append:
  "split_slash (a @ CHR ''/'' # n) = split_slash a @ split_slash n"
proof (induction a)
  case Nil
  show ?case by simp
next
  case (Cons c cs)
  obtain w ws where "split_slash cs = w # ws"
    using split_slash_not_Nil [of cs] by (cases "split_slash cs") auto
  with Cons show ?case by simp
qed

lemma split_slash_no_slash: "CHR ''/'' \<notin> set n \<Longrightarrow> split_slash n = [n]"
  by (induction n) auto

lemma last_parts_file:
  assumes "CHR ''/'' \<notin> set n" "n \<noteq> []" "n \<noteq> ''.''"
  shows "last (parts (a @ ''/'' @ n)) = n"
  using assms by (simp add: parts_def split_slash_append split_slash_no_slash)

lemma save_img_written:
  assumes "fst (save_img trim known fs img name format output_dir) = Inr ()"
  shows "files (snd (save_img trim known fs img name format output_dir))
           (parts (trim output_dir @ ''/'' @ name @ ''.'' @ format)) = Some img"
  using assms
  by (auto simp: save_img_def save_def Let_def split: sum.splits if_splits)

text \<open>
  Claim C5. With the helper as the spec describes it, a call whose directory carries a
  trailing separator and the call with the separator removed have the same outcome, file
  system included; when the call succeeds, the image is the file
  \<^verbatim>\<open>{output_dir}/{name}.{format}\<close>, the directory being the trimmed one.
\<close>

theorem save_img_trailing_separator:
  "save_img trim_slash_from_path known fs img name format (d @ ''/'') =
     save_img trim_slash_from_path known fs img name format d \<and>
   (fst (save_img trim_slash_from_path known fs img name format d) = Inr () \<longrightarrow>
      files (snd (save_img trim_slash_from_path known fs img name format d))
        (parts (trim_slash_from_path d @ ''/'' @ name @ ''.'' @ format)) = Some img \<and>
      files (snd (save_img trim_slash_from_path known fs img name format (d @ ''/'')))
        (parts (trim_slash_from_path d @ ''/'' @ name @ ''.'' @ format)) = Some img)"
proof -
  have same: "save_img trim_slash_from_path known fs img name format (d @ ''/'') =
     save_img trim_slash_from_path known fs img name format d"
    by (simp add: save_img_def trim_slash_append_slash)
  show ?thesis
    using save_img_written [of trim_slash_from_path known fs img name format d]
    by (simp add: same)
qed

theorem save_img_trailing_separator_witness:
  "save_img trim_slash_from_path (\<lambda>_. True) empty_disk pixel ''x'' ''png'' ''out/'' =
     save_img trim_slash_from_path (\<lambda>_. True) empty_disk pixel ''x'' ''png'' ''out'' \<and>
   fst (save_img trim_slash_from_path (\<lambda>_. True) empty_disk pixel ''x'' ''png'' ''out'') = Inr () \<and>
   files (snd (save_img trim_slash_from_path (\<lambda>_. True) empty_disk pixel ''x'' ''png'' ''out''))
     [''out'', ''x.png''] = Some pixel \<and>
   files (snd (save_img trim_slash_from_path (\<lambda>_. True) empty_disk pixel ''x'' ''png'' ''out/''))
     [''out'', ''x.png''] = Some pixel"
proof -
  have ok: "fst (save_img trim_slash_from_path (\<lambda>_. True) empty_disk pixel ''x'' ''png'' ''out'') = Inr ()"
    by (simp add: save_img_def save_def mkdir_def parts_def trim_slash_from_path_def is_dir_def
        empty_disk_def Let_def)
  have p: "parts (trim_slash_from_path ''out'' @ ''/'' @ ''x'' @ ''.'' @ ''png'') = [''out'', ''x.png'']"
    by (simp add: parts_def trim_slash_from_path_def)
  show ?thesis
    using ok save_img_trailing_separator [of "\<lambda>_. True" empty_disk pixel "''x''" "''png''" "''out''"]
    unfolding p by simp
qed

text \<open>
  Claim C8. Whatever the helper does to the directory, the file written is named by the
  name given, a dot and the format, also when the name already ends in that extension:
  the name \<^verbatim>\<open>test.png\<close> with format \<^verbatim>\<open>png\<close> is written as
  \<^verbatim>\<open>test.png.png\<close>.
\<close>

theorem save_img_appends_format:
  "(fst (save_img trim known fs img name format output_dir) = Inr () \<longrightarrow>
      files (snd (save_img trim known fs img name format output_dir))
        (parts (trim output_dir @ ''/'' @ name @ ''.'' @ format)) = Some img) \<and>
   (fst (save_img trim known fs img ''test.png'' ''png'' output_dir) = Inr () \<longrightarrow>
      files (snd (save_img trim known fs img ''test.png'' ''png'' output_dir))
        (parts (trim output_dir @ ''/test.png.png'')) = Some img \<and>
      last (parts (trim output_dir @ ''/test.png.png'')) = ''test.png.png'')"
proof (intro conjI impI)
  assume "fst (save_img trim known fs img name format output_dir) = Inr ()"
  then show "files (snd (save_img trim known fs img name format output_dir))
        (parts (trim output_dir @ ''/'' @ name @ ''.'' @ format)) = Some img"
    by (rule save_img_written)
next
  assume "fst (save_img trim known fs img ''test.png'' ''png'' output_dir) = Inr ()"
  from save_img_written [OF this]
  show "files (snd (save_img trim known fs img ''test.png'' ''png'' output_dir))
        (parts (trim output_dir @ ''/test.png.png'')) = Some img"
    by simp
next
  show "last (parts (trim output_dir @ ''/test.png.png'')) = ''test.png.png''"
    using last_parts_file [of "''test.png.png''" "trim output_dir"] by simp
qed

theorem save_img_appends_format_witness:
  "fst (save_img (\<lambda>d. d) (\<lambda>_. True) empty_disk pixel ''test.png'' ''png'' ''out'') = Inr () \<and>
   files (snd (save_img (\<lambda>d. d) (\<lambda>_. True) empty_disk pixel ''test.png'' ''png'' ''out''))
     [''out'', ''test.png.png''] = Some pixel \<and>
   files (snd (save_img (\<lambda>d. d) (\<lambda>_. True) empty_disk pixel ''test.png'' ''png'' ''out''))
     [''out'', ''test.png''] = None"
proof -
  have ok: "fst (save_img (\<lambda>d. d) (\<lambda>_. True) empty_disk pixel ''test.png'' ''png'' ''out'') = Inr ()"
    by (simp add: save_img_def save_def mkdir_def parts_def is_dir_def
        empty_disk_def Let_def)
  have p: "parts ((\<lambda>d. d) ''out'' @ ''/test.png.png'') = [''out'', ''test.png.png'']"
    by (simp add: parts_def)
  have none: "files (snd (save_img (\<lambda>d. d) (\<lambda>_. True) empty_disk pixel ''test.png'' ''png'' ''out''))
     [''out'', ''test.png''] = None"
    by (simp add: save_img_def save_def mkdir_def parts_def is_dir_def
        empty_disk_def Let_def)
  show ?thesis
    using ok none
      save_img_appends_format [where trim = "\<lambda>d. d" and known = "\<lambda>_. True" and fs = empty_disk
          and img = pixel and output_dir = "''out''" and name = "''test.png''"
          and format = "''png''"]
    unfolding p by simp
qed

lemma self_in_self_and_parents: "p \<noteq> [] \<Longrightarrow> p \<in> set (self_and_parents p)"
  by (induction p) (auto simp: image_iff)

text \<open>
  Claim C10. The directory is created before the image is written: when the creation
  succeeds and the write raises, the call ends with that exception and the file system is
  the one the creation left, with the directory and its parents in it. Where the directory
  did not exist before, the file system has changed.
\<close>

theorem save_img_keeps_directory_on_error:
  assumes "mkdir (trim output_dir) fs = Inr fs1"
    and "save known img (trim output_dir @ ''/'' @ name @ ''.'' @ format) fs1 = Inl e"
  shows "save_img trim known fs img name format output_dir = (Inl e, fs1) \<and>
         dirs fs1 = dirs fs \<union> set (self_and_parents (parts (trim output_dir))) \<and>
         files fs1 = files fs \<and>
         (parts (trim output_dir) \<noteq> [] \<longrightarrow> parts (trim output_dir) \<in> dirs fs1) \<and>
         (parts (trim output_dir) \<noteq> [] \<and> parts (trim output_dir) \<notin> dirs fs \<longrightarrow> fs1 \<noteq> fs)"
proof -
  from assms(1) have fs1: "fs1 = fs\<lparr>dirs := dirs fs \<union> set (self_and_parents (parts (trim output_dir)))\<rparr>"
    by (auto simp: mkdir_def Let_def split: if_splits)
  have a: "save_img trim known fs img name format output_dir = (Inl e, fs1)"
    using assms by (simp add: save_img_def)
  have b: "dirs fs1 = dirs fs \<union> set (self_and_parents (parts (trim output_dir)))"
    and c: "files fs1 = files fs"
    by (simp_all add: fs1)
  have d: "parts (trim output_dir) \<in> dirs fs1" if "parts (trim output_dir) \<noteq> []"
    using that self_in_self_and_parents [OF that] by (simp add: b)
  have e: "fs1 \<noteq> fs" if "parts (trim output_dir) \<noteq> []" "parts (trim output_dir) \<notin> dirs fs"
    using d [OF that(1)] that(2) by auto
  show ?thesis using a b c d e by blast
qed

theorem save_img_keeps_directory_on_error_witness:
  "save_img (\<lambda>d. d) (\<lambda>_. False) empty_disk pixel ''test'' ''xyz'' ''nested/new/dir'' =
     (Inl ValueError,
      \<lparr>dirs = {[''nested''], [''nested'', ''new''], [''nested'', ''new'', ''dir'']},
       files = Map.empty\<rparr>) \<and>
   [''nested'', ''new'', ''dir''] \<notin> dirs empty_disk"
proof -
  let ?fs1 = "\<lparr>dirs = {[''nested''], [''nested'', ''new''], [''nested'', ''new'', ''dir'']},
       files = Map.empty :: string list \<rightharpoonup> rgb_image\<rparr>"
  have m: "mkdir ((\<lambda>d. d) ''nested/new/dir'') empty_disk = Inr ?fs1"
    by (simp add: mkdir_def parts_def empty_disk_def insert_commute)
  have s: "save (\<lambda>_. False) pixel ((\<lambda>d. d) ''nested/new/dir'' @ ''/'' @ ''test'' @ ''.'' @ ''xyz'') ?fs1
             = Inl ValueError"
    by (simp add: save_def)
  show ?thesis
    using save_img_keeps_directory_on_error [where trim = "\<lambda>d. d" and output_dir = "''nested/new/dir''", OF m s]
    by (simp add: empty_disk_def)
qed

end
